theory Spec2Isabelle
  imports Complex_Main
begin

section \<open>Data model of \<open>AArenaCharacter\<close>\<close>

text \<open>
  The class lives in \<^verbatim>\<open>ArenaCharacter.cpp\<close>. Its header is not part of the sources, so the
  member types are read off the way the members are used in the \<^verbatim>\<open>.cpp\<close> file, and the two
  enumerations are taken in the order the specification lists them.
\<close>

datatype Direction = North | East | South | West

datatype CharacterState = Idle | Walking | Attacking | Ability

text \<open>
  \<open>FDateTime\<close> is a count of 100-nanosecond ticks since 0001-01-01; \<open>FTimespan\<close> is a
  difference of such counts. Both are 64-bit in the engine; no claim depends on the width, so
  they are unbounded integers here.
\<close>

type_synonym FDateTime = int
type_synonym FTimespan = int

text \<open>\<^verbatim>\<open>static FDateTime InputReleaseTime = -1;\<close>\<close>

definition InputReleaseTime :: FDateTime where
  "InputReleaseTime = - 1"

text \<open>
  A reading of \<open>FDateTime::Now()\<close> is a calendar date, hence a positive tick count. The
  functions below take each reading as an argument, one per call of \<open>Now()\<close> in the source.
\<close>

definition clock_reading :: "FDateTime \<Rightarrow> bool" where
  "clock_reading t \<longleftrightarrow> 0 < t"

text \<open>\<open>FTimespan::GetDuration\<close> is the absolute value of the span.\<close>

definition GetDuration :: "FTimespan \<Rightarrow> FTimespan" where
  "GetDuration d = (if 0 \<le> d then d else - d)"

text \<open>
  \<open>FTimespan::GetTotalMilliseconds\<close> divides the ticks by \<open>ETimespan::TicksPerMillisecond\<close>
  (10000). The engine returns a \<open>double\<close>; the model computes with exact reals.
\<close>

definition GetTotalMilliseconds :: "FTimespan \<Rightarrow> real" where
  "GetTotalMilliseconds d = real_of_int d / 10000"

subsection \<open>Single-precision floats\<close>

text \<open>
  \<open>AttackDamage\<close>, the result of \<open>FGenericPlatformMath::Pow\<close> and their product are C++
  \<open>float\<close>s: a finite value, an infinity (\<open>True\<close> for the positive one) or not-a-number.
  Finite values are kept as the reals they denote; the sign of a zero is not kept.
\<close>

datatype float = Finite real | Infinity bool | NaN

text \<open>Rounding to an integer, ties to the even one.\<close>

definition round_half_even :: "real \<Rightarrow> int" where
  "round_half_even y =
     (let f = \<lfloor>y\<rfloor>; d = y - real_of_int f
      in if d < 1 / 2 then f else if 1 / 2 < d then f + 1 else if even f then f else f + 1)"

text \<open>
  A finite \<open>float\<close> is \<open>m * 2 ^ e\<close> with \<open>\<bar>m\<bar> < 2 ^ 24\<close> and \<open>- 149 \<le> e \<le> 104\<close>. For a real
  \<open>x\<close> the exponent of its last place is the greatest such \<open>e\<close> with \<open>2 ^ (e + 23) \<le> \<bar>x\<bar>\<close>, or
  \<open>- 149\<close> in the subnormal range.
\<close>

definition ulp_exponent :: "real \<Rightarrow> int" where
  "ulp_exponent x =
     (case find (\<lambda>k. 2 powi (k + 23) \<le> \<bar>x\<bar>) (rev [- 149..104]) of
        Some k \<Rightarrow> k
      | None \<Rightarrow> - 149)"

text \<open>
  Rounding a real result to \<open>float\<close>, to nearest with ties to even: the result overflows to
  an infinity when its rounded magnitude reaches \<open>2 ^ 128\<close>.
\<close>

definition round_to_float :: "real \<Rightarrow> float" where
  "round_to_float x =
     (let e = ulp_exponent x;
          r = real_of_int (round_half_even (x / 2 powi e)) * 2 powi e
      in if 2 powi 128 \<le> \<bar>r\<bar> then Infinity (0 < x) else Finite r)"

text \<open>The conversion of an \<open>int\<close> argument to \<open>float\<close>.\<close>

definition float_of_int :: "int \<Rightarrow> float" where
  "float_of_int n = round_to_float (real_of_int n)"

text \<open>The product of two \<open>float\<close>s.\<close>

fun fmul :: "float \<Rightarrow> float \<Rightarrow> float" where
  "fmul NaN y = NaN"
| "fmul x NaN = NaN"
| "fmul (Finite a) (Finite b) = round_to_float (a * b)"
| "fmul (Finite a) (Infinity q) = (if a = 0 then NaN else Infinity (q = (0 < a)))"
| "fmul (Infinity p) (Finite b) = (if b = 0 then NaN else Infinity (p = (0 < b)))"
| "fmul (Infinity p) (Infinity q) = Infinity (p = q)"

text \<open>
  \<open>FGenericPlatformMath::Pow(float, float)\<close> is \<open>powf\<close>: the rounded power for finite
  arguments, taken as correctly rounded (it is exact on the powers of two), and the values
  the C standard fixes for zero, infinite and not-a-number arguments. It is \<open>Pow_float\<close>
  here, \<open>Pow\<close> being the powerset of HOL.
\<close>

definition odd_integer :: "real \<Rightarrow> bool" where
  "odd_integer B \<longleftrightarrow> B = real_of_int \<lfloor>B\<rfloor> \<and> odd \<lfloor>B\<rfloor>"

fun Pow_float :: "float \<Rightarrow> float \<Rightarrow> float" where
  "Pow_float (Finite A) (Finite B) =
     (if B = 0 \<or> A = 1 then Finite 1
      else if A = 0 then (if 0 < B then Finite 0 else Infinity True)
      else if B = real_of_int \<lfloor>B\<rfloor> then round_to_float (A powi \<lfloor>B\<rfloor>)
      else if 0 < A then round_to_float (A powr B)
      else NaN)"
| "Pow_float (Finite A) (Infinity q) =
     (if \<bar>A\<bar> = 1 then Finite 1 else if (1 < \<bar>A\<bar>) = q then Infinity True else Finite 0)"
| "Pow_float (Finite A) NaN = (if A = 1 then Finite 1 else NaN)"
| "Pow_float (Infinity p) (Finite B) =
     (if B = 0 then Finite 1
      else if B < 0 then Finite 0
      else Infinity (p \<or> \<not> odd_integer B))"
| "Pow_float (Infinity p) (Infinity q) = (if q then Infinity True else Finite 0)"
| "Pow_float (Infinity p) NaN = NaN"
| "Pow_float NaN (Finite B) = (if B = 0 then Finite 1 else NaN)"
| "Pow_float NaN (Infinity q) = NaN"
| "Pow_float NaN NaN = NaN"

type_synonym FVector = "real \<times> real \<times> real"

text \<open>A pointer to an engine object: null, or the object with a given identity.\<close>

datatype ptr = nullptr | Obj nat

datatype ECollisionEnabled = NoCollision | QueryAndPhysics

subsection \<open>\<open>TMap\<close>\<close>

text \<open>
  A \<open>TMap\<close> that only ever grows is iterated in insertion order, and \<open>UpdateFacing\<close> depends
  on that order; so the map is an association list. \<open>Add\<close> replaces the value of a key that
  is present and appends otherwise. \<open>operator[]\<close> is \<open>FindChecked\<close>: it fails an assertion
  when the key is missing, which is the value \<open>None\<close>.
\<close>

type_synonym ('k, 'v) TMap = "('k \<times> 'v) list"

fun TMap_Add :: "'k \<Rightarrow> 'v \<Rightarrow> ('k, 'v) TMap \<Rightarrow> ('k, 'v) TMap" where
  "TMap_Add k v [] = [(k, v)]"
| "TMap_Add k v (p # m) = (if fst p = k then (k, v) # m else p # TMap_Add k v m)"

definition TMap_Contains :: "('k, 'v) TMap \<Rightarrow> 'k \<Rightarrow> bool" where
  "TMap_Contains m k \<longleftrightarrow> k \<in> set (map fst m)"

definition TMap_at :: "('k, 'v) TMap \<Rightarrow> 'k \<Rightarrow> 'v option" where
  "TMap_at m k = map_of m k"

definition TMap_assign :: "'k \<Rightarrow> 'v \<Rightarrow> ('k, 'v) TMap \<Rightarrow> ('k, 'v) TMap option" where
  "TMap_assign k v m = (if TMap_Contains m k then Some (TMap_Add k v m) else None)"

subsection \<open>Calls that leave the class\<close>

text \<open>
  Every call to an engine collaborator or to a Blueprint event is appended to a log kept with
  the character, so that "the side effect is (not) invoked" is a statement about the log.
\<close>

datatype effect =
    CallSuperTick real
  | CallIdleState
  | CallWalkingState
  | CallAttackState real bool
  | CallAbilityState real bool
  | CallAbilityStart
  | CallAbilityEnd
  | CallPlayFlipbook nat bool
  | CallSetCollisionEnabled nat ECollisionEnabled
  | CallDamage nat float
  | CallAddDynamic

subsection \<open>The members\<close>

record character =
  MoveInputMap :: "(Direction, FDateTime) TMap"
  MoveSpeed :: real
  MoveDirection :: Direction
  Facing :: Direction
  Velocity :: FVector
  AttackBoxes :: "(Direction, ptr) TMap"
  AttackDamage :: float
  bIsMoving :: bool
  bIsAttacking :: bool
  attackKeyDown :: bool
  attackDownTime :: FDateTime
  attackStarted :: bool
  bIsAbility :: bool
  abilityKeyDown :: bool
  abilityDownTime :: FDateTime
  abilityCooldownTime :: FDateTime
  AbilityCooldown :: real
  CharacterState :: CharacterState
  IdleAnimations :: "(Direction, nat) TMap"
  WalkingAnimations :: "(Direction, nat) TMap"
  effects :: "effect list"

text \<open>
  The Blueprint events and the base class's \<open>Tick\<close> have no body in the sources. They are
  parameters: each may change the character in any way (a Blueprint can call \<open>FinishAttack\<close>,
  \<open>SetVelocity\<close> and the other callable functions).
\<close>

record blueprint =
  SuperTick :: "real \<Rightarrow> character \<Rightarrow> character"
  IdleState :: "character \<Rightarrow> character"
  WalkingState :: "character \<Rightarrow> character"
  AttackState :: "real \<Rightarrow> bool \<Rightarrow> character \<Rightarrow> character"
  AbilityState :: "real \<Rightarrow> bool \<Rightarrow> character \<Rightarrow> character"
  AbilityStart :: "character \<Rightarrow> character"
  AbilityEnd :: "character \<Rightarrow> character"

definition emit :: "effect \<Rightarrow> character \<Rightarrow> character" where
  "emit e s = s\<lparr>effects := effects s @ [e]\<rparr>"

text \<open>Calling an event logs the call and then runs its body.\<close>

definition call :: "effect \<Rightarrow> (character \<Rightarrow> character) \<Rightarrow> character \<Rightarrow> character" where
  "call e body s = body (emit e s)"

section \<open>The member functions\<close>

text \<open>
  The constructor fills the input map, empty until then, in the order North, East, South,
  West. Its argument stands for the members as their initialisers in the header leave them.
\<close>

definition AArenaCharacter :: "character \<Rightarrow> character" where
  "AArenaCharacter s =
     emit CallAddDynamic
       (s\<lparr>MoveInputMap :=
            TMap_Add West InputReleaseTime
              (TMap_Add South InputReleaseTime
                (TMap_Add East InputReleaseTime
                  (TMap_Add North InputReleaseTime [])))\<rparr>)"

fun SetVelocity :: "real \<Rightarrow> Direction \<Rightarrow> character \<Rightarrow> character" where
  "SetVelocity speed North s = s\<lparr>Velocity := (0, 0, speed)\<rparr>"
| "SetVelocity speed East s = s\<lparr>Velocity := (speed, 0, 0)\<rparr>"
| "SetVelocity speed South s = s\<lparr>Velocity := (0, 0, - speed)\<rparr>"
| "SetVelocity speed West s = s\<lparr>Velocity := (- speed, 0, 0)\<rparr>"

definition Move :: "character \<Rightarrow> character" where
  "Move s = SetVelocity (MoveSpeed s) (MoveDirection s) s"

text \<open>
  \<open>hitbox->SetCollisionEnabled(mode)\<close>: dereferencing a null pointer is a failure.
\<close>

fun SetCollisionEnabled :: "ptr \<Rightarrow> ECollisionEnabled \<Rightarrow> character \<Rightarrow> character option" where
  "SetCollisionEnabled nullptr mode s = None"
| "SetCollisionEnabled (Obj b) mode s = Some (emit (CallSetCollisionEnabled b mode) s)"

definition BeginAttack :: "Direction \<Rightarrow> character \<Rightarrow> character option" where
  "BeginAttack direction s =
     (case TMap_at (AttackBoxes s) (Facing s) of
        None \<Rightarrow> None
      | Some box \<Rightarrow>
          (case SetCollisionEnabled box QueryAndPhysics s of
             None \<Rightarrow> None
           | Some s' \<Rightarrow> Some (s'\<lparr>attackStarted := True\<rparr>)))"

definition FinishAttack :: "character \<Rightarrow> character option" where
  "FinishAttack s =
     (let s1 = s\<lparr>bIsAttacking := False, attackDownTime := - 1, attackStarted := False\<rparr>
      in case TMap_at (AttackBoxes s1) (Facing s1) of
           None \<Rightarrow> None
         | Some box \<Rightarrow> SetCollisionEnabled box NoCollision s1)"

definition FinishAbility :: "character \<Rightarrow> character" where
  "FinishAbility s = s\<lparr>bIsAbility := False, abilityDownTime := - 1\<rparr>"

text \<open>
  \<open>Attack\<close>: \<open>this\<close> is the character's own identity. \<open>other->Damage(...)\<close> on a null
  pointer is a failure. The two \<open>int\<close> arguments of \<open>Pow\<close> are converted to \<open>float\<close>, and the
  product is a \<open>float\<close> product.
\<close>

definition Attack :: "nat \<Rightarrow> ptr \<Rightarrow> int \<Rightarrow> character \<Rightarrow> character option" where
  "Attack this other damageModifier s =
     (if other = Obj this then Some s
      else case other of
             nullptr \<Rightarrow> None
           | Obj a \<Rightarrow>
               Some (emit (CallDamage a
                            (fmul (AttackDamage s)
                               (Pow_float (float_of_int 2) (float_of_int damageModifier)))) s))"

definition ResetCooldown :: "character \<Rightarrow> character" where
  "ResetCooldown s = s\<lparr>abilityCooldownTime := - 1\<rparr>"

text \<open>
  The test \<open>MoveInputMap[d] > InputReleaseTime\<close>, and the short-circuit \<open>||\<close> over tests
  that can fail.
\<close>

definition key_held :: "(Direction, FDateTime) TMap \<Rightarrow> Direction \<Rightarrow> bool option" where
  "key_held m d = map_option (\<lambda>t. t > InputReleaseTime) (TMap_at m d)"

fun or_else :: "bool option \<Rightarrow> bool option \<Rightarrow> bool option" where
  "or_else None r = None"
| "or_else (Some True) r = Some True"
| "or_else (Some False) r = r"

definition UpdateMovementInput ::
    "FDateTime \<Rightarrow> Direction \<Rightarrow> bool \<Rightarrow> character \<Rightarrow> character option" where
  "UpdateMovementInput now direction keyDown s =
     (case TMap_assign direction (if keyDown then now else InputReleaseTime) (MoveInputMap s) of
        None \<Rightarrow> None
      | Some m \<Rightarrow>
          (case or_else (key_held m North)
                  (or_else (key_held m West)
                    (or_else (key_held m South) (key_held m East))) of
             None \<Rightarrow> None
           | Some b \<Rightarrow> Some (s\<lparr>MoveInputMap := m, bIsMoving := b\<rparr>)))"

text \<open>
  \<open>UpdateFacing\<close>: \<open>recent\<close> starts as the value-initialised pair, the first enumerator and
  tick 0; the loop runs over the map in iteration order and replaces \<open>recent\<close> on a strictly
  later time only.
\<close>

definition more_recent ::
    "Direction \<times> FDateTime \<Rightarrow> Direction \<times> FDateTime \<Rightarrow> Direction \<times> FDateTime" where
  "more_recent pair recent = (if snd pair > snd recent then pair else recent)"

definition UpdateFacing :: "character \<Rightarrow> character" where
  "UpdateFacing s =
     (let recent = fold more_recent (MoveInputMap s) (North, 0)
      in if bIsMoving s then s\<lparr>MoveDirection := fst recent, Facing := fst recent\<rparr> else s)"

definition UpdateAttackInput :: "FDateTime \<Rightarrow> bool \<Rightarrow> character \<Rightarrow> character" where
  "UpdateAttackInput now active s =
     (let s1 = s\<lparr>attackKeyDown := active\<rparr>
      in if \<not> bIsAttacking s1 \<and> active
         then s1\<lparr>bIsAttacking := True, attackDownTime := now\<rparr>
         else s1)"

text \<open>
  \<open>UpdateAbilityInput\<close> reads the clock three times: \<open>now\<close> for the cooldown test, \<open>now1\<close>
  for \<open>abilityDownTime\<close> and \<open>now2\<close> for \<open>abilityCooldownTime\<close>.
\<close>

definition on_cooldown :: "FDateTime \<Rightarrow> character \<Rightarrow> bool" where
  "on_cooldown now s \<longleftrightarrow>
     GetTotalMilliseconds (GetDuration (now - abilityCooldownTime s)) < AbilityCooldown s"

definition UpdateAbilityInput ::
    "blueprint \<Rightarrow> FDateTime \<Rightarrow> FDateTime \<Rightarrow> FDateTime \<Rightarrow> bool \<Rightarrow> character \<Rightarrow> character" where
  "UpdateAbilityInput bp now now1 now2 active s =
     (let s1 = s\<lparr>abilityKeyDown := active\<rparr>
      in if on_cooldown now s1 \<or> bIsAbility s1 then s1
         else if active
           then (call CallAbilityStart (AbilityStart bp) s1)
                  \<lparr>bIsAbility := True, abilityDownTime := now1, abilityCooldownTime := now2\<rparr>
           else s1)"

definition SetHitbox :: "Direction \<Rightarrow> ptr \<Rightarrow> character \<Rightarrow> character option" where
  "SetHitbox direction hitbox s =
     (case SetCollisionEnabled hitbox NoCollision s of
        None \<Rightarrow> None
      | Some s1 \<Rightarrow> Some (s1\<lparr>AttackBoxes := TMap_Add direction hitbox (AttackBoxes s1)\<rparr>))"

text \<open>
  \<open>ResetInput\<close>: \<open>controller\<close> is the first player controller (a failure when there is none)
  with its \<open>IsInputKeyDown\<close>; \<open>nowN\<close>, \<open>nowW\<close>, \<open>nowS\<close>, \<open>nowE\<close> are the clock readings of the four
  movement updates and \<open>nowA\<close> that of the ability update.
\<close>

definition and_then :: "'a option \<Rightarrow> ('a \<Rightarrow> 'b option) \<Rightarrow> 'b option" where
  "and_then x f = (case x of None \<Rightarrow> None | Some y \<Rightarrow> f y)"

definition ResetInput ::
    "blueprint \<Rightarrow> (string \<Rightarrow> bool) option \<Rightarrow> FDateTime \<Rightarrow> FDateTime \<Rightarrow> FDateTime \<Rightarrow> FDateTime
       \<Rightarrow> FDateTime \<Rightarrow> character \<Rightarrow> character option" where
  "ResetInput bp controller nowN nowW nowS nowE nowA s =
     (case controller of
        None \<Rightarrow> None
      | Some IsInputKeyDown \<Rightarrow>
          and_then (UpdateMovementInput nowN North (IsInputKeyDown ''W'') s) (\<lambda>s1.
          and_then (UpdateMovementInput nowW West (IsInputKeyDown ''A'') s1) (\<lambda>s2.
          and_then (UpdateMovementInput nowS South (IsInputKeyDown ''S'') s2) (\<lambda>s3.
          and_then (UpdateMovementInput nowE East (IsInputKeyDown ''D'') s3) (\<lambda>s4.
          Some (UpdateAttackInput nowA False
                 (UpdateAbilityInput bp nowA nowA nowA False s4)))))))"

text \<open>
  \<open>Tick\<close>. The parts of the Idle and Walking cases that run before the transition checks:
  facing, the state's event, the animation for the facing if the map has one.
\<close>

definition PlayFlipbook_for_Facing :: "(Direction, nat) TMap \<Rightarrow> character \<Rightarrow> character" where
  "PlayFlipbook_for_Facing anims s =
     (if TMap_Contains anims (Facing s)
      then (case TMap_at anims (Facing s) of
              None \<Rightarrow> s
            | Some fb \<Rightarrow> emit (CallPlayFlipbook fb True) s)
      else s)"

definition before_checks ::
    "effect \<Rightarrow> (character \<Rightarrow> character) \<Rightarrow> (character \<Rightarrow> (Direction, nat) TMap)
       \<Rightarrow> character \<Rightarrow> character" where
  "before_checks e event anims s =
     (let s1 = call e event (UpdateFacing s) in PlayFlipbook_for_Facing (anims s1) s1)"

definition Tick :: "blueprint \<Rightarrow> FDateTime \<Rightarrow> real \<Rightarrow> character \<Rightarrow> character" where
  "Tick bp now DeltaSeconds s0 =
     (let s = call (CallSuperTick DeltaSeconds) (SuperTick bp DeltaSeconds) s0
      in case CharacterState s of
           Idle \<Rightarrow>
             (let s1 = before_checks CallIdleState (IdleState bp) IdleAnimations s
              in if bIsMoving s1 then s1\<lparr>CharacterState := Walking\<rparr>
                 else if bIsAttacking s1 then s1\<lparr>CharacterState := Attacking\<rparr>
                 else if bIsAbility s1 then s1\<lparr>CharacterState := Ability\<rparr>
                 else s1)
         | Walking \<Rightarrow>
             (let s1 = before_checks CallWalkingState (WalkingState bp) WalkingAnimations s
              in if bIsAttacking s1 then s1\<lparr>CharacterState := Attacking\<rparr>
                 else if bIsAbility s1 then s1\<lparr>CharacterState := Ability\<rparr>
                 else if \<not> bIsMoving s1
                   then (SetVelocity 0 (Facing s1) s1)\<lparr>CharacterState := Idle\<rparr>
                 else s1)
         | Attacking \<Rightarrow>
             (if \<not> bIsAttacking s \<and> bIsMoving s then s\<lparr>CharacterState := Walking\<rparr>
              else if \<not> bIsAttacking s then s\<lparr>CharacterState := Idle\<rparr>
              else if \<not> attackStarted s
                then (let ms = GetTotalMilliseconds (now - attackDownTime s)
                      in call (CallAttackState ms (attackKeyDown s))
                           (AttackState bp ms (attackKeyDown s)) s)
              else s)
         | Ability \<Rightarrow>
             (if \<not> bIsAbility s \<and> bIsMoving s
                then (call CallAbilityEnd (AbilityEnd bp) s)\<lparr>CharacterState := Walking\<rparr>
              else if \<not> bIsAbility s
                then (call CallAbilityEnd (AbilityEnd bp) s)\<lparr>CharacterState := Idle\<rparr>
              else (let ms = GetTotalMilliseconds (now - abilityDownTime s)
                    in call (CallAbilityState ms (abilityKeyDown s))
                         (AbilityState bp ms (abilityKeyDown s)) s)))"

section \<open>Vocabulary of the properties\<close>

text \<open>The position of a direction in the enumeration.\<close>

fun enum_index :: "Direction \<Rightarrow> nat" where
  "enum_index North = 0"
| "enum_index East = 1"
| "enum_index South = 2"
| "enum_index West = 3"

text \<open>
  The input map as the constructor builds it and \<open>UpdateMovementInput\<close> keeps it: the four
  keys in insertion order, each time either the release value or a clock reading.
\<close>

definition constructed_keys :: "character \<Rightarrow> bool" where
  "constructed_keys s \<longleftrightarrow> map fst (MoveInputMap s) = [North, East, South, West]"

definition timestamps_valid :: "character \<Rightarrow> bool" where
  "timestamps_valid s \<longleftrightarrow>
     list_all (\<lambda>t. t = InputReleaseTime \<or> clock_reading t) (map snd (MoveInputMap s))"

text \<open>Some entry of the input map is more recent than the release value.\<close>

definition some_key_held :: "character \<Rightarrow> bool" where
  "some_key_held s \<longleftrightarrow> list_ex (\<lambda>t. t > InputReleaseTime) (map snd (MoveInputMap s))"

definition held_now :: "character \<Rightarrow> Direction \<Rightarrow> bool" where
  "held_now s d \<longleftrightarrow> key_held (MoveInputMap s) d = Some True"

subsection \<open>Sequences of movement input\<close>

text \<open>
  A call of \<open>UpdateMovementInput\<close> with its clock reading, and a sequence of such calls run
  from left to right; a failing call ends the run.
\<close>

type_synonym movement_call = "FDateTime \<times> Direction \<times> bool"

fun UpdateMovementInputs :: "movement_call list \<Rightarrow> character \<Rightarrow> character option" where
  "UpdateMovementInputs [] s = Some s"
| "UpdateMovementInputs ((now, direction, keyDown) # calls) s =
     and_then (UpdateMovementInput now direction keyDown s) (UpdateMovementInputs calls)"

text \<open>
  The keys themselves: which directions are down after a sequence of press and release
  events, whatever the clock said.
\<close>

fun keys_after :: "movement_call list \<Rightarrow> (Direction \<Rightarrow> bool) \<Rightarrow> Direction \<Rightarrow> bool" where
  "keys_after [] down = down"
| "keys_after ((now, direction, keyDown) # calls) down =
     keys_after calls (down(direction := keyDown))"

definition all_released :: "Direction \<Rightarrow> bool" where
  "all_released d = False"

subsection \<open>Any member function\<close>

text \<open>One invocation of a member function of the class, with its arguments.\<close>

datatype invocation =
    InvMove
  | InvSetVelocity real Direction
  | InvBeginAttack Direction
  | InvFinishAttack
  | InvFinishAbility
  | InvAttack nat ptr int
  | InvResetInput "(string \<Rightarrow> bool) option" FDateTime FDateTime FDateTime FDateTime FDateTime
  | InvResetCooldown
  | InvUpdateMovementInput FDateTime Direction bool
  | InvUpdateFacing
  | InvUpdateAttackInput FDateTime bool
  | InvUpdateAbilityInput FDateTime FDateTime FDateTime bool
  | InvSetHitbox Direction ptr
  | InvTick FDateTime real

fun invoke :: "blueprint \<Rightarrow> invocation \<Rightarrow> character \<Rightarrow> character option" where
  "invoke bp InvMove s = Some (Move s)"
| "invoke bp (InvSetVelocity speed direction) s = Some (SetVelocity speed direction s)"
| "invoke bp (InvBeginAttack direction) s = BeginAttack direction s"
| "invoke bp InvFinishAttack s = FinishAttack s"
| "invoke bp InvFinishAbility s = Some (FinishAbility s)"
| "invoke bp (InvAttack this other damageModifier) s = Attack this other damageModifier s"
| "invoke bp (InvResetInput controller nowN nowW nowS nowE nowA) s =
     ResetInput bp controller nowN nowW nowS nowE nowA s"
| "invoke bp InvResetCooldown s = Some (ResetCooldown s)"
| "invoke bp (InvUpdateMovementInput now direction keyDown) s =
     UpdateMovementInput now direction keyDown s"
| "invoke bp InvUpdateFacing s = Some (UpdateFacing s)"
| "invoke bp (InvUpdateAttackInput now active) s = Some (UpdateAttackInput now active s)"
| "invoke bp (InvUpdateAbilityInput now now1 now2 active) s =
     Some (UpdateAbilityInput bp now now1 now2 active s)"
| "invoke bp (InvSetHitbox direction hitbox) s = SetHitbox direction hitbox s"
| "invoke bp (InvTick now DeltaSeconds) s = Some (Tick bp now DeltaSeconds s)"

text \<open>
  The three members of a running attack, and Blueprint events that do not write them (an
  event that calls \<open>FinishAttack\<close> or \<open>BeginAttack\<close> does).
\<close>

definition attack_members :: "character \<Rightarrow> bool \<times> FDateTime \<times> bool" where
  "attack_members s = (bIsAttacking s, attackDownTime s, attackStarted s)"

definition keeps_attack :: "(character \<Rightarrow> character) \<Rightarrow> bool" where
  "keeps_attack event \<longleftrightarrow> (\<forall>s. attack_members (event s) = attack_members s)"

definition blueprint_keeps_attack :: "blueprint \<Rightarrow> bool" where
  "blueprint_keeps_attack bp \<longleftrightarrow>
     (\<forall>dt. keeps_attack (SuperTick bp dt)) \<and> keeps_attack (IdleState bp)
     \<and> keeps_attack (WalkingState bp)
     \<and> (\<forall>ms k. keeps_attack (AttackState bp ms k))
     \<and> (\<forall>ms k. keeps_attack (AbilityState bp ms k))
     \<and> keeps_attack (AbilityStart bp) \<and> keeps_attack (AbilityEnd bp)"

section \<open>Worked inputs\<close>

text \<open>
  A character to evaluate the functions on. The member values of \<open>sample_members\<close> are
  chosen for the examples; the constructor then builds the input map.
\<close>

definition sample_members :: character where
  "sample_members =
     \<lparr>MoveInputMap = [], MoveSpeed = 300, MoveDirection = South, Facing = South,
      Velocity = (0, 0, 0), AttackBoxes = [], AttackDamage = Finite 10, bIsMoving = False,
      bIsAttacking = False, attackKeyDown = False, attackDownTime = - 1,
      attackStarted = False, bIsAbility = False, abilityKeyDown = False,
      abilityDownTime = - 1, abilityCooldownTime = - 1, AbilityCooldown = 1000,
      CharacterState = Idle, IdleAnimations = [], WalkingAnimations = [], effects = []\<rparr>"

definition sample_character :: character where
  "sample_character = AArenaCharacter sample_members"

text \<open>A Blueprint whose events do nothing.\<close>

definition no_blueprint :: blueprint where
  "no_blueprint =
     \<lparr>SuperTick = (\<lambda>dt s. s), IdleState = (\<lambda>s. s), WalkingState = (\<lambda>s. s),
      AttackState = (\<lambda>ms k s. s), AbilityState = (\<lambda>ms k s. s),
      AbilityStart = (\<lambda>s. s), AbilityEnd = (\<lambda>s. s)\<rparr>"

text \<open>Attack pressed at tick 5 and released at tick 7, the attack still running.\<close>

definition pressed_again :: character where
  "pressed_again = UpdateAttackInput 7 False (UpdateAttackInput 5 True sample_character)"

text \<open>The ability key pressed on the fresh character, five seconds' worth of ticks in.\<close>

definition ability_used :: character where
  "ability_used =
     UpdateAbilityInput no_blueprint 50000000 50000001 50000002 True sample_character"

text \<open>The same character once the ability has finished: last use at tick 50000002.\<close>

definition ability_finished :: character where
  "ability_finished = FinishAbility ability_used"

text \<open>A Blueprint whose walking event moves the character.\<close>

definition moving_blueprint :: blueprint where
  "moving_blueprint = no_blueprint\<lparr>WalkingState := Move\<rparr>"

text \<open>East and West held since tick 9, South since tick 4, North released.\<close>

definition two_held :: character where
  "two_held = sample_character
     \<lparr>MoveInputMap := [(North, - 1), (East, 9), (South, 4), (West, 9)], bIsMoving := True\<rparr>"

text \<open>North and East pressed, then both released.\<close>

definition sample_calls :: "movement_call list" where
  "sample_calls = [(5, North, True), (6, East, True), (8, North, False), (9, East, False)]"

text \<open>North held and the attack key pressed, in the Idle state.\<close>

definition north_and_attack :: character where
  "north_and_attack =
     UpdateAttackInput 6 True
       (sample_character
          \<lparr>MoveInputMap := [(North, 5), (East, - 1), (South, - 1), (West, - 1)],
           bIsMoving := True\<rparr>)"

text \<open>Walking north, the key just released.\<close>

definition walking_released :: character where
  "walking_released = sample_character
     \<lparr>CharacterState := Walking, Facing := North, MoveDirection := North,
      Velocity := (0, 0, 300)\<rparr>"

text \<open>An attack pressed at tick 5, its hitbox registered and open.\<close>

definition attack_running :: character where
  "attack_running = (UpdateAttackInput 5 True sample_character)
     \<lparr>AttackBoxes := [(South, Obj 7)], attackStarted := True\<rparr>"

section \<open>Properties\<close>

lemma sample_character_simp:
  "sample_character = sample_members
     \<lparr>MoveInputMap := [(North, - 1), (East, - 1), (South, - 1), (West, - 1)],
      effects := [CallAddDynamic]\<rparr>"
  by (simp add: sample_character_def AArenaCharacter_def emit_def sample_members_def
      InputReleaseTime_def)

subsection \<open>Ability input\<close>

text \<open>
  C1, as the code has it. The cooldown test takes the distance between the clock reading and
  \<open>abilityCooldownTime\<close> (\<open>GetDuration\<close> is the absolute value), which is the elapsed time
  whenever the clock has not been set back behind the last use. A call
  \<open>UpdateAbilityInput(true)\<close> is ignored when that distance, in milliseconds, is below
  \<open>AbilityCooldown\<close>, or when \<open>bIsAbility\<close> is set: only \<open>abilityKeyDown\<close> is written, so the
  ability is not started, nothing is added to the log of calls (\<open>AbilityStart\<close> is not
  invoked), and \<open>attackDownTime\<close>, \<open>abilityDownTime\<close> and \<open>abilityCooldownTime\<close> keep their
  values. Otherwise \<open>AbilityStart\<close> is called (logged, then run on the character with the key
  flag set), and after it \<open>bIsAbility\<close> is true and \<open>abilityDownTime\<close> and
  \<open>abilityCooldownTime\<close> hold the clock readings taken for them.
\<close>

theorem UpdateAbilityInput_press:
  "(real_of_int \<bar>now - abilityCooldownTime s\<bar> / 10000 < AbilityCooldown s \<or> bIsAbility s \<longrightarrow>
      UpdateAbilityInput bp now now1 now2 True s = s\<lparr>abilityKeyDown := True\<rparr>
      \<and> bIsAbility (UpdateAbilityInput bp now now1 now2 True s) = bIsAbility s
      \<and> effects (UpdateAbilityInput bp now now1 now2 True s) = effects s
      \<and> attackDownTime (UpdateAbilityInput bp now now1 now2 True s) = attackDownTime s
      \<and> abilityDownTime (UpdateAbilityInput bp now now1 now2 True s) = abilityDownTime s
      \<and> abilityCooldownTime (UpdateAbilityInput bp now now1 now2 True s)
          = abilityCooldownTime s)
   \<and> (\<not> (real_of_int \<bar>now - abilityCooldownTime s\<bar> / 10000 < AbilityCooldown s
          \<or> bIsAbility s) \<longrightarrow>
      UpdateAbilityInput bp now now1 now2 True s =
        (AbilityStart bp
           (s\<lparr>abilityKeyDown := True, effects := effects s @ [CallAbilityStart]\<rparr>))
          \<lparr>bIsAbility := True, abilityDownTime := now1, abilityCooldownTime := now2\<rparr>
      \<and> bIsAbility (UpdateAbilityInput bp now now1 now2 True s)
      \<and> abilityDownTime (UpdateAbilityInput bp now now1 now2 True s) = now1
      \<and> abilityCooldownTime (UpdateAbilityInput bp now now1 now2 True s) = now2)"
  by (simp add: UpdateAbilityInput_def on_cooldown_def GetDuration_def
      GetTotalMilliseconds_def call_def emit_def abs_if)

text \<open>
  The first press starts the ability; a press 900 ticks later, the ability finished in
  between, falls into the cooldown of 1000 ms and only sets the key flag.
\<close>

theorem UpdateAbilityInput_press_witness:
  "bIsAbility ability_used \<and> abilityDownTime ability_used = 50000001
   \<and> abilityCooldownTime ability_used = 50000002
   \<and> effects ability_used = [CallAddDynamic, CallAbilityStart]
   \<and> UpdateAbilityInput no_blueprint 50000900 50000901 50000902 True
         (FinishAbility ability_used)
       = (FinishAbility ability_used)\<lparr>abilityKeyDown := True\<rparr>"
  using UpdateAbilityInput_press [of 50000000 sample_character no_blueprint 50000001 50000002]
    UpdateAbilityInput_press
      [of 50000900 "FinishAbility ability_used" no_blueprint 50000901 50000902]
  by (simp add: ability_used_def FinishAbility_def no_blueprint_def sample_character_simp
      sample_members_def)

text \<open>
  With the elapsed time read as \<open>now - abilityCooldownTime\<close>, the property fails when the
  wall clock has been set back. Last use at tick 50000002, the ability finished, the clock
  now at 30000000: the elapsed time is about -2000 ms, below the cooldown of 1000 ms, yet
  the press starts the ability, calls \<open>AbilityStart\<close> and overwrites both timers.
\<close>

theorem UpdateAbilityInput_clock_set_back_counterexample:
  "real_of_int (30000000 - abilityCooldownTime ability_finished) / 10000
     < AbilityCooldown ability_finished
   \<and> \<not> bIsAbility ability_finished
   \<and> bIsAbility
        (UpdateAbilityInput no_blueprint 30000000 30000001 30000002 True ability_finished)
   \<and> abilityDownTime
        (UpdateAbilityInput no_blueprint 30000000 30000001 30000002 True ability_finished)
       = 30000001
   \<and> abilityCooldownTime
        (UpdateAbilityInput no_blueprint 30000000 30000001 30000002 True ability_finished)
       = 30000002
   \<and> effects
        (UpdateAbilityInput no_blueprint 30000000 30000001 30000002 True ability_finished)
       = effects ability_finished @ [CallAbilityStart]"
  by (simp add: ability_finished_def ability_used_def FinishAbility_def UpdateAbilityInput_def
      on_cooldown_def GetDuration_def GetTotalMilliseconds_def call_def emit_def
      no_blueprint_def sample_character_simp sample_members_def)

subsection \<open>Attack input\<close>

text \<open>
  C7, as the code has it. \<open>UpdateAttackInput\<close> always stores the given value in
  \<open>attackKeyDown\<close>. When no attack is running (\<open>bIsAttacking\<close> is false) and the given value
  is active, it sets \<open>bIsAttacking\<close> and records the clock reading in \<open>attackDownTime\<close>; on
  any other call \<open>bIsAttacking\<close> and \<open>attackDownTime\<close> keep their values. The guard is the
  running attack, not the previous state of the key.
\<close>

theorem UpdateAttackInput_start:
  "attackKeyDown (UpdateAttackInput now active s) = active
   \<and> (\<not> bIsAttacking s \<and> active \<longrightarrow>
        bIsAttacking (UpdateAttackInput now active s)
        \<and> attackDownTime (UpdateAttackInput now active s) = now)
   \<and> (\<not> (\<not> bIsAttacking s \<and> active) \<longrightarrow>
        bIsAttacking (UpdateAttackInput now active s) = bIsAttacking s
        \<and> attackDownTime (UpdateAttackInput now active s) = attackDownTime s)"
  by (simp add: UpdateAttackInput_def Let_def)

theorem UpdateAttackInput_start_witness:
  "\<not> bIsAttacking sample_character
   \<and> bIsAttacking (UpdateAttackInput 5 True sample_character)
   \<and> attackDownTime (UpdateAttackInput 5 True sample_character) = 5
   \<and> bIsAttacking pressed_again
   \<and> bIsAttacking (UpdateAttackInput 9 True pressed_again)
   \<and> attackDownTime (UpdateAttackInput 9 True pressed_again) = 5"
  using UpdateAttackInput_start [of 5 True sample_character]
    UpdateAttackInput_start [of 9 True pressed_again]
    UpdateAttackInput_start [of 7 False "UpdateAttackInput 5 True sample_character"]
  by (simp add: pressed_again_def sample_character_simp sample_members_def)

text \<open>
  Read as a rising edge of the key, the property fails. Press at 5, release at 7, press
  again at 9 while the attack of the first press is still running: the key was up and is
  now down, yet \<open>attackDownTime\<close> is not the time of the new press.
\<close>

theorem UpdateAttackInput_rising_edge_counterexample:
  "\<not> attackKeyDown pressed_again
     \<and> attackKeyDown (UpdateAttackInput 9 True pressed_again)
     \<and> attackDownTime (UpdateAttackInput 9 True pressed_again) \<noteq> 9"
  by (simp add: pressed_again_def UpdateAttackInput_def sample_character_simp
      sample_members_def)

subsection \<open>Facing\<close>

text \<open>
  C8. When \<open>bIsMoving\<close> is false, \<open>UpdateFacing\<close> leaves \<open>Facing\<close> and \<open>MoveDirection\<close>
  (indeed the whole character) unchanged.
\<close>

theorem UpdateFacing_idle_keeps_facing:
  "\<not> bIsMoving s \<Longrightarrow>
     Facing (UpdateFacing s) = Facing s \<and> MoveDirection (UpdateFacing s) = MoveDirection s
       \<and> UpdateFacing s = s"
  by (simp add: UpdateFacing_def)

theorem UpdateFacing_idle_keeps_facing_witness:
  "\<not> bIsMoving sample_character \<and> Facing (UpdateFacing sample_character) = South
     \<and> MoveDirection (UpdateFacing sample_character) = South"
  using UpdateFacing_idle_keeps_facing [of sample_character]
  by (simp add: sample_character_simp sample_members_def)

subsection \<open>Attack resolution\<close>

text \<open>
  Facts about rounding to \<open>float\<close>: a value that is a \<open>float\<close> already is returned as it is;
  a value of \<open>2 ^ 128\<close> or more overflows; half the least positive \<open>float\<close> rounds to zero.
\<close>

lemma round_half_even_of_int [simp]: "round_half_even (real_of_int j) = j"
  by (simp add: round_half_even_def)

lemma find_SomeD: "find P xs = Some k \<Longrightarrow> P k \<and> k \<in> set xs"
  by (auto simp: find_Some_iff)

lemma ulp_exponent_cases:
  "- 149 \<le> ulp_exponent x \<and> ulp_exponent x \<le> 104
   \<and> (ulp_exponent x = - 149 \<or> 2 powi (ulp_exponent x + 23) \<le> \<bar>x\<bar>)"
proof (cases "find (\<lambda>k. 2 powi (k + 23) \<le> \<bar>x\<bar>) (rev [- 149..104])")
  case None
  then show ?thesis by (simp add: ulp_exponent_def)
next
  case (Some k)
  from find_SomeD [OF Some] have le: "2 powi (k + 23) \<le> \<bar>x\<bar>"
    and "k \<in> set (rev [- 149..104])"
    by blast+
  then have range: "- 149 \<le> k \<and> k \<le> 104"
    by (simp only: set_rev set_upto atLeastAtMost_iff)
  have "ulp_exponent x = k" using Some by (simp add: ulp_exponent_def)
  with le range show ?thesis by simp
qed

lemma round_to_float_exact:
  assumes m: "\<bar>m\<bar> < 2 ^ 24" and e: "- 149 \<le> e" "e \<le> 104"
  shows "round_to_float (real_of_int m * 2 powi e) = Finite (real_of_int m * 2 powi e)"
proof -
  let ?x = "real_of_int m * 2 powi e"
  let ?k = "ulp_exponent ?x"
  have absx: "\<bar>?x\<bar> = real_of_int \<bar>m\<bar> * 2 powi e" by (simp add: abs_mult)
  have mlt: "real_of_int \<bar>m\<bar> < 2 ^ 24" using m by (metis of_int_less_numeral_power_cancel_iff)
  have lt: "\<bar>?x\<bar> < 2 powi (e + 24)"
  proof -
    have "real_of_int \<bar>m\<bar> * 2 powi e < 2 ^ 24 * 2 powi e"
      using mlt by (intro mult_strict_right_mono) simp_all
    also have "\<dots> = 2 powi (e + 24)" by (simp add: power_int_add)
    finally show ?thesis using absx by simp
  qed
  have ke: "?k \<le> e"
  proof (cases "?k = - 149")
    case True
    then show ?thesis using e by simp
  next
    case False
    then have "(2::real) powi (?k + 23) \<le> \<bar>?x\<bar>" using ulp_exponent_cases [of ?x] by blast
    with lt have "(2::real) powi (?k + 23) < 2 powi (e + 24)" by simp
    then have "?k + 23 < e + 24"
      by (smt (verit) power_int_increasing)
    then show ?thesis by simp
  qed
  have q: "?x / 2 powi ?k = real_of_int (m * 2 ^ nat (e - ?k))"
  proof -
    have "(2::real) powi (e - ?k) = 2 powi e / 2 powi ?k"
      by (simp add: power_int_diff)
    moreover have "(2::real) powi (e - ?k) = 2 ^ nat (e - ?k)"
      using ke by (simp add: power_int_nonneg_exp)
    ultimately have "(2::real) powi e / 2 powi ?k = 2 ^ nat (e - ?k)" by simp
    then have "?x / 2 powi ?k = real_of_int m * 2 ^ nat (e - ?k)"
      by (simp only: times_divide_eq_right [symmetric])
    then show ?thesis by simp
  qed
  have r: "real_of_int (round_half_even (?x / 2 powi ?k)) * 2 powi ?k = ?x"
  proof -
    have "real_of_int (round_half_even (?x / 2 powi ?k)) = ?x / 2 powi ?k"
      unfolding q by (simp only: round_half_even_of_int)
    then show ?thesis by simp
  qed
  have "\<bar>?x\<bar> < 2 powi 128"
  proof -
    have "(2::real) powi (e + 24) \<le> 2 powi 128"
      using e by (intro power_int_increasing) simp_all
    with lt show ?thesis by simp
  qed
  then show ?thesis by (simp add: round_to_float_def Let_def r del: power_int_numeral)
qed


lemma ulp_exponent_large:
  assumes "2 powi 127 \<le> \<bar>x\<bar>"
  shows "ulp_exponent x = 104"
proof -
  have "rev [- 149..104] = 104 # rev [- 149..(103::int)]"
    by (simp only: upto_rec2 [of "- 149" 104] rev_append) simp
  then show ?thesis using assms by (simp add: ulp_exponent_def)
qed

lemma ulp_exponent_tiny:
  assumes "\<bar>x\<bar> < 2 powi (- 126)"
  shows "ulp_exponent x = - 149"
proof -
  have "\<not> 2 powi (k + 23) \<le> \<bar>x\<bar>" if "k \<in> set (rev [- 149..104])" for k
  proof -
    from that have "- 149 \<le> k" by (simp only: set_rev set_upto atLeastAtMost_iff)
    then have "(2::real) powi (- 126) \<le> 2 powi (k + 23)"
      by (intro power_int_increasing) simp_all
    with assms show ?thesis by simp
  qed
  then have "find (\<lambda>k. 2 powi (k + 23) \<le> \<bar>x\<bar>) (rev [- 149..104]) = None"
    by (simp only: find_None_iff) blast
  then show ?thesis by (simp add: ulp_exponent_def)
qed

lemma floor_le_round_half_even: "\<lfloor>y\<rfloor> \<le> round_half_even y"
  by (simp add: round_half_even_def Let_def)

lemma round_to_float_overflow:
  assumes "2 powi 128 \<le> x"
  shows "round_to_float x = Infinity True"
proof -
  have pos: "0 < x"
    using assms by (smt (verit) zero_less_power_int)
  have "(2::real) powi 127 \<le> 2 powi 128" by simp
  with assms pos have k: "ulp_exponent x = 104" by (intro ulp_exponent_large) simp
  let ?y = "x / 2 powi 104"
  have "(2::real) powi 128 = 2 ^ 24 * 2 powi 104" by simp
  with assms have "2 ^ 24 \<le> ?y" by (simp add: pos_le_divide_eq del: power_int_numeral)
  then have "(2::int) ^ 24 \<le> \<lfloor>?y\<rfloor>" by (simp add: le_floor_iff)
  from this floor_le_round_half_even [of ?y] have "(2::int) ^ 24 \<le> round_half_even ?y"
    by (rule order_trans)
  then have "(2::real) ^ 24 \<le> real_of_int (round_half_even ?y)"
    by (metis of_int_numeral of_int_power of_int_le_iff)
  then have "2 ^ 24 * 2 powi 104 \<le> real_of_int (round_half_even ?y) * 2 powi 104"
    by (intro mult_right_mono) simp_all
  then have "2 powi 128 \<le> \<bar>real_of_int (round_half_even ?y) * 2 powi 104\<bar>" by simp
  then show ?thesis using pos k by (simp add: round_to_float_def Let_def del: power_int_numeral)
qed

lemma round_to_float_half_least: "round_to_float (2 powi (- 150)) = Finite 0"
proof -
  have "\<bar>(2::real) powi (- 150)\<bar> < 2 powi (- 126)"
    by (simp add: power_int_strict_increasing del: power_int_numeral_neg_numeral)
  then have k: "ulp_exponent (2 powi (- 150)) = - 149" by (rule ulp_exponent_tiny)
  have h: "(2::real) powi (- 150) / 2 powi (- 149) = 1 / 2"
    by (simp flip: power_int_diff)
  have "round_half_even (1 / 2) = 0" by (simp add: round_half_even_def)
  then show ?thesis unfolding round_to_float_def Let_def k h by simp
qed

lemma round_to_float_0: "round_to_float 0 = Finite 0"
  using round_to_float_exact [of 0 0] by simp

lemma float_of_int_small: "\<bar>n\<bar> < 2 ^ 24 \<Longrightarrow> float_of_int n = Finite (real_of_int n)"
  using round_to_float_exact [of n 0] by (simp add: float_of_int_def)

lemma round_to_float_power_of_2:
  assumes "- 149 \<le> n" and "n \<le> 127"
  shows "round_to_float (2 powi n) = Finite (2 powi n)"
proof (cases "n \<le> 104")
  case True
  with assms round_to_float_exact [of 1 n] show ?thesis by simp
next
  case False
  let ?m = "(2::int) ^ nat (n - 104)"
  have "nat (n - 104) < 24" using assms by simp
  then have "?m < 2 ^ 24" by (intro power_strict_increasing) simp_all
  then have m: "\<bar>?m\<bar> < 2 ^ 24" by simp
  have "(2::real) powi n = 2 powi (n - 104) * 2 powi 104"
    by (simp flip: power_int_add del: power_int_numeral)
  also have "(2::real) powi (n - 104) = real_of_int ?m"
    using False by (simp add: power_int_nonneg_exp)
  finally have eq: "(2::real) powi n = real_of_int ?m * 2 powi 104" .
  from round_to_float_exact [OF m, of 104] show ?thesis unfolding eq by simp
qed

lemma Pow_2:
  assumes "- 149 \<le> n" and "n \<le> 127"
  shows "Pow_float (float_of_int 2) (float_of_int n) = Finite (2 powi n)"
proof -
  have two: "float_of_int 2 = Finite 2" by (simp add: float_of_int_small)
  have n: "float_of_int n = Finite (real_of_int n)"
    using assms by (intro float_of_int_small) simp
  show ?thesis
  proof (cases "n = 0")
    case True
    with n show ?thesis by (simp add: two)
  next
    case False
    then show ?thesis
      by (simp add: two n round_to_float_power_of_2 [OF assms])
  qed
qed

lemma Pow_2_minus_150: "Pow_float (float_of_int 2) (float_of_int (- 150)) = Finite 0"
proof -
  have two: "float_of_int 2 = Finite 2" by (simp add: float_of_int_small)
  have n: "float_of_int (- 150) = Finite (real_of_int (- 150))"
    by (intro float_of_int_small) simp
  have "Pow_float (Finite 2) (Finite (real_of_int (- 150))) = round_to_float (2 powi (- 150))"
    by (simp del: power_int_numeral_neg_numeral)
  then show ?thesis by (simp only: two n round_to_float_half_least)
qed

text \<open>
  C4, within the range of \<open>float\<close>. For a target \<open>a\<close> other than the character, a base
  damage that is the \<open>float\<close> \<open>m * 2 ^ e\<close>, and a modifier \<open>n\<close> from -149 to 127 for which the
  product \<open>m * 2 ^ (e + n)\<close> is a finite \<open>float\<close> as well, \<open>Attack\<close> makes exactly one call,
  \<open>Damage\<close> on \<open>a\<close> with the amount \<open>AttackDamage * 2 ^ n\<close>, and changes nothing else.
\<close>

theorem Attack_other_damage:
  assumes "a \<noteq> this"
    and "AttackDamage s = Finite (real_of_int m * 2 powi e)" and "\<bar>m\<bar> < 2 ^ 24"
    and "- 149 \<le> n" and "n \<le> 127" and "- 149 \<le> e + n" and "e + n \<le> 104"
  shows "Attack this (Obj a) n s =
           Some (s\<lparr>effects :=
                     effects s @ [CallDamage a (Finite (real_of_int m * 2 powi e * 2 powi n))]\<rparr>)"
proof -
  have "(2::real) powi e * 2 powi n = 2 powi (e + n)"
    by (simp add: power_int_add)
  then have eq: "real_of_int m * 2 powi e * 2 powi n = real_of_int m * 2 powi (e + n)"
    by (simp only: mult.assoc)
  have "round_to_float (real_of_int m * 2 powi e * 2 powi n)
      = Finite (real_of_int m * 2 powi e * 2 powi n)"
    unfolding eq using assms by (intro round_to_float_exact) simp_all
  then show ?thesis
    using assms by (simp add: Attack_def emit_def Pow_2)
qed

text \<open>Base damage 10 and modifier 2 give 40.\<close>

theorem Attack_other_damage_witness:
  "(1::nat) \<noteq> 0 \<and> AttackDamage sample_character = Finite (real_of_int 10 * 2 powi 0)
   \<and> Attack 0 (Obj 1) 2 sample_character =
       Some (sample_character\<lparr>effects := [CallAddDynamic, CallDamage 1 (Finite 40)]\<rparr>)"
  using Attack_other_damage [of 1 0 sample_character 10 0 2]
  by (simp add: sample_character_simp sample_members_def)

text \<open>
  Stated for every modifier, the property fails: with base damage 10, modifier 125 overflows the
  product and the call is \<open>Damage\<close> of plus infinity, not of \<open>10 * 2 ^ 125\<close>; modifier -150
  makes \<open>Pow\<close> return zero and the call is \<open>Damage\<close> of 0, not of \<open>10 / 2 ^ 150\<close>.
\<close>

theorem Attack_other_damage_counterexample:
  "Attack 0 (Obj 1) 125 sample_character =
     Some (sample_character\<lparr>effects := [CallAddDynamic, CallDamage 1 (Infinity True)]\<rparr>)
   \<and> Infinity True \<noteq> Finite (10 * 2 powi 125)
   \<and> Attack 0 (Obj 1) (- 150) sample_character =
       Some (sample_character\<lparr>effects := [CallAddDynamic, CallDamage 1 (Finite 0)]\<rparr>)
   \<and> Finite 0 \<noteq> Finite (10 * 2 powi (- 150))"
proof -
  have base: "AttackDamage sample_character = Finite 10"
    and log: "effects sample_character = [CallAddDynamic]"
    by (simp_all add: sample_character_simp sample_members_def)
  have "(2::real) powi 128 \<le> 10 * 2 powi 125" by simp
  then have up: "round_to_float (10 * 2 powi 125) = Infinity True"
    by (rule round_to_float_overflow)
  have "Attack 0 (Obj 1) 125 sample_character =
      Some (sample_character\<lparr>effects := [CallAddDynamic, CallDamage 1 (Infinity True)]\<rparr>)"
    using up by (simp add: Attack_def emit_def Pow_2 base log del: power_int_numeral)
  moreover have "Attack 0 (Obj 1) (- 150) sample_character =
      Some (sample_character\<lparr>effects := [CallAddDynamic, CallDamage 1 (Finite 0)]\<rparr>)"
    by (simp add: Attack_def emit_def Pow_2_minus_150 base log round_to_float_0)
  ultimately show ?thesis by simp
qed

text \<open>
  C9. \<open>Attack\<close> with the character itself as target returns the character as it was,
  whatever the modifier: no call is logged and no member changes.
\<close>

theorem Attack_self_noop: "Attack this (Obj this) damageModifier s = Some s"
  by (simp add: Attack_def)

subsection \<open>Facing, while moving\<close>

lemma keys_NESW:
  assumes "map fst m = [North, East, South, West]"
  shows "\<exists>a b c d. m = [(North, a), (East, b), (South, c), (West, d)]"
proof -
  from assms obtain p1 p2 p3 p4 where m: "m = [p1, p2, p3, p4]"
    and f: "fst p1 = North" "fst p2 = East" "fst p3 = South" "fst p4 = West"
    by (auto simp: map_eq_Cons_conv)
  then show ?thesis by (cases p1; cases p2; cases p3; cases p4) auto
qed

text \<open>
  The loop of \<open>UpdateFacing\<close>: either no entry is later than the start value, or the result
  is an entry of the map, later than the start value, strictly later than every entry before
  it and at least as late as every entry after it.
\<close>

lemma fold_more_recent:
  "(fold more_recent m r0 = r0 \<and> (\<forall>p \<in> set m. snd p \<le> snd r0))
   \<or> (\<exists>xs ys. m = xs @ fold more_recent m r0 # ys
          \<and> snd r0 < snd (fold more_recent m r0)
          \<and> (\<forall>p \<in> set xs. snd p < snd (fold more_recent m r0))
          \<and> (\<forall>p \<in> set ys. snd p \<le> snd (fold more_recent m r0)))"
proof (induction m arbitrary: r0)
  case Nil
  show ?case by simp
next
  case (Cons p m)
  let ?r = "fold more_recent m (more_recent p r0)"
  have step: "fold more_recent (p # m) r0 = ?r" by simp
  show ?case
  proof (cases "snd r0 < snd p")
    case True
    then have init: "more_recent p r0 = p" by (simp add: more_recent_def)
    from Cons.IH [of p] show ?thesis
    proof
      assume "fold more_recent m p = p \<and> (\<forall>q \<in> set m. snd q \<le> snd p)"
      then have "p # m = [] @ ?r # m \<and> snd r0 < snd ?r \<and> (\<forall>q \<in> set m. snd q \<le> snd ?r)"
        using True init by simp
      then show ?thesis unfolding step by (metis empty_iff list.set(1))
    next
      assume "\<exists>xs ys. m = xs @ fold more_recent m p # ys
          \<and> snd p < snd (fold more_recent m p)
          \<and> (\<forall>q \<in> set xs. snd q < snd (fold more_recent m p))
          \<and> (\<forall>q \<in> set ys. snd q \<le> snd (fold more_recent m p))"
      then obtain xs ys where m: "m = xs @ ?r # ys" and lt: "snd p < snd ?r"
        and xs: "\<forall>q \<in> set xs. snd q < snd ?r" and ys: "\<forall>q \<in> set ys. snd q \<le> snd ?r"
        using init by auto
      have "p # m = (p # xs) @ ?r # ys" using m by simp
      moreover have "snd r0 < snd ?r" using True lt by simp
      moreover have "\<forall>q \<in> set (p # xs). snd q < snd ?r" using xs lt by simp
      ultimately show ?thesis unfolding step using ys by blast
    qed
  next
    case False
    then have init: "more_recent p r0 = r0" by (simp add: more_recent_def)
    from Cons.IH [of r0] show ?thesis
    proof
      assume "fold more_recent m r0 = r0 \<and> (\<forall>q \<in> set m. snd q \<le> snd r0)"
      then show ?thesis using False init by auto
    next
      assume "\<exists>xs ys. m = xs @ fold more_recent m r0 # ys
          \<and> snd r0 < snd (fold more_recent m r0)
          \<and> (\<forall>q \<in> set xs. snd q < snd (fold more_recent m r0))
          \<and> (\<forall>q \<in> set ys. snd q \<le> snd (fold more_recent m r0))"
      then obtain xs ys where m: "m = xs @ ?r # ys" and lt: "snd r0 < snd ?r"
        and xs: "\<forall>q \<in> set xs. snd q < snd ?r" and ys: "\<forall>q \<in> set ys. snd q \<le> snd ?r"
        using init by auto
      have "p # m = (p # xs) @ ?r # ys" using m by simp
      moreover have "\<forall>q \<in> set (p # xs). snd q < snd ?r" using xs lt False by simp
      ultimately show ?thesis unfolding step using ys lt by blast
    qed
  qed
qed

lemma later_in_enum_order:
  assumes keys: "map fst m = [North, East, South, West]" and m: "m = xs @ r # ys"
    and q: "q \<in> set ys"
  shows "enum_index (fst r) < enum_index (fst q)"
proof -
  have "sorted_wrt (<) (map (enum_index \<circ> fst) m)"
    using keys by (simp flip: map_map)
  then show ?thesis using m q by (auto simp: sorted_wrt_append)
qed

text \<open>
  C2. On a character whose input map is as constructed (keys North, East, South, West, each
  time the release value or a clock reading), with \<open>bIsMoving\<close> set and some direction
  held, \<open>UpdateFacing\<close> sets \<open>Facing\<close> and \<open>MoveDirection\<close> to a held direction \<open>d\<close> whose
  time is the latest of the map; every direction with the same time comes no earlier than
  \<open>d\<close> in the enumeration, so among equal latest times the first of North, East, South,
  West wins.
\<close>

theorem UpdateFacing_most_recent:
  assumes keys: "constructed_keys s" and valid: "timestamps_valid s"
    and moving: "bIsMoving s" and held: "some_key_held s"
  shows "\<exists>d t. TMap_at (MoveInputMap s) d = Some t
           \<and> t > InputReleaseTime
           \<and> Facing (UpdateFacing s) = d \<and> MoveDirection (UpdateFacing s) = d
           \<and> (\<forall>d' t'. TMap_at (MoveInputMap s) d' = Some t' \<longrightarrow>
                 t' \<le> t \<and> (t' = t \<longrightarrow> enum_index d \<le> enum_index d'))"
proof -
  let ?m = "MoveInputMap s"
  let ?r = "fold more_recent ?m (North, 0)"
  have k: "map fst ?m = [North, East, South, West]"
    using keys by (simp add: constructed_keys_def)
  then have dist: "distinct (map fst ?m)" by simp
  from held valid obtain p where p: "p \<in> set ?m" and "0 < snd p"
    by (auto simp: some_key_held_def timestamps_valid_def list_ex_iff list_all_iff
        InputReleaseTime_def clock_reading_def)
  then have "\<not> (\<forall>q \<in> set ?m. snd q \<le> snd (North, 0::int))" by force
  with fold_more_recent [of ?m "(North, 0)"]
  obtain xs ys where m: "?m = xs @ ?r # ys" and pos: "0 < snd ?r"
    and xs: "\<forall>q \<in> set xs. snd q < snd ?r" and ys: "\<forall>q \<in> set ys. snd q \<le> snd ?r"
    by auto
  have rin: "(fst ?r, snd ?r) \<in> set ?m" by (subst m) simp
  have at: "TMap_at ?m (fst ?r) = Some (snd ?r)"
    unfolding TMap_at_def using dist rin by (rule map_of_is_SomeI)
  have best: "t' \<le> snd ?r \<and> (t' = snd ?r \<longrightarrow> enum_index (fst ?r) \<le> enum_index d')"
    if "TMap_at ?m d' = Some t'" for d' t'
  proof -
    from that have "(d', t') \<in> set ?m" by (simp add: TMap_at_def map_of_SomeD)
    then have "(d', t') \<in> set xs \<or> (d', t') = ?r \<or> (d', t') \<in> set ys"
      by (subst (asm) m) auto
    then show ?thesis
    proof (elim disjE)
      assume "(d', t') \<in> set xs"
      then show ?thesis using xs by force
    next
      assume "(d', t') = ?r"
      then show ?thesis by (metis fst_conv snd_conv order_refl)
    next
      assume a: "(d', t') \<in> set ys"
      then have "enum_index (fst ?r) < enum_index (fst (d', t'))"
        using later_in_enum_order [OF k m] by blast
      then show ?thesis using ys a by force
    qed
  qed
  have "Facing (UpdateFacing s) = fst ?r \<and> MoveDirection (UpdateFacing s) = fst ?r"
    using moving by (simp add: UpdateFacing_def Let_def)
  moreover have "snd ?r > InputReleaseTime" using pos by (simp add: InputReleaseTime_def)
  ultimately show ?thesis using at best by blast
qed


text \<open>East and West share the latest time 9; East comes first.\<close>

theorem UpdateFacing_most_recent_witness:
  "constructed_keys two_held \<and> timestamps_valid two_held \<and> bIsMoving two_held
   \<and> some_key_held two_held
   \<and> Facing (UpdateFacing two_held) = East \<and> MoveDirection (UpdateFacing two_held) = East
   \<and> TMap_at (MoveInputMap two_held) East = Some 9"
  using UpdateFacing_most_recent [of two_held]
  by (simp add: two_held_def constructed_keys_def timestamps_valid_def some_key_held_def
      sample_character_simp sample_members_def InputReleaseTime_def clock_reading_def
      UpdateFacing_def more_recent_def TMap_at_def)

subsection \<open>Movement input\<close>

lemma or_else_Some: "or_else (Some a) (Some b) = Some (a \<or> b)"
  by (cases a) simp_all

lemma UpdateMovementInput_step:
  assumes "constructed_keys s"
  shows "\<exists>s'. UpdateMovementInput now d k s = Some s' \<and> constructed_keys s'
           \<and> (bIsMoving s' \<longleftrightarrow> some_key_held s')
           \<and> (clock_reading now \<longrightarrow> held_now s' = (held_now s)(d := k))"
proof -
  from assms obtain a b c e where m: "MoveInputMap s = [(North, a), (East, b), (South, c), (West, e)]"
    using keys_NESW by (auto simp: constructed_keys_def)
  show ?thesis
    by (cases d; cases k)
      (auto simp: UpdateMovementInput_def m TMap_assign_def TMap_Contains_def key_held_def
        TMap_at_def constructed_keys_def some_key_held_def held_now_def fun_eq_iff
        clock_reading_def InputReleaseTime_def or_else_Some)
qed


lemma UpdateMovementInputs_inv:
  "constructed_keys s \<Longrightarrow>
     \<exists>s'. UpdateMovementInputs calls s = Some s' \<and> constructed_keys s'
       \<and> (calls \<noteq> [] \<longrightarrow> (bIsMoving s' \<longleftrightarrow> some_key_held s'))
       \<and> (list_all (\<lambda>c. clock_reading (fst c)) calls \<longrightarrow>
            held_now s' = keys_after calls (held_now s))"
proof (induction calls arbitrary: s)
  case Nil
  then show ?case by simp
next
  case (Cons c calls)
  obtain now d k where c: "c = (now, d, k)" by (cases c)
  from UpdateMovementInput_step [OF Cons.prems, of now d k]
  obtain s1 where s1: "UpdateMovementInput now d k s = Some s1" and k1: "constructed_keys s1"
    and m1: "bIsMoving s1 \<longleftrightarrow> some_key_held s1"
    and h1: "clock_reading now \<longrightarrow> held_now s1 = (held_now s)(d := k)"
    by blast
  from Cons.IH [OF k1]
  obtain s' where s': "UpdateMovementInputs calls s1 = Some s'" and k': "constructed_keys s'"
    and m': "calls \<noteq> [] \<longrightarrow> (bIsMoving s' \<longleftrightarrow> some_key_held s')"
    and h': "list_all (\<lambda>c. clock_reading (fst c)) calls \<longrightarrow>
               held_now s' = keys_after calls (held_now s1)"
    by blast
  have run: "UpdateMovementInputs (c # calls) s = Some s'"
    using s1 s' by (simp add: c and_then_def)
  have "bIsMoving s' \<longleftrightarrow> some_key_held s'"
  proof (cases calls)
    case Nil
    then show ?thesis using s' m1 by simp
  next
    case Cons
    then show ?thesis using m' by simp
  qed
  moreover have "list_all (\<lambda>c. clock_reading (fst c)) (c # calls) \<longrightarrow>
      held_now s' = keys_after (c # calls) (held_now s)"
    using h1 h' by (simp add: c)
  ultimately show ?case using run k' by blast
qed

lemma constructed_keys_AArenaCharacter: "constructed_keys (AArenaCharacter s0)"
  by (simp add: constructed_keys_def AArenaCharacter_def emit_def)

lemma held_now_AArenaCharacter: "held_now (AArenaCharacter s0) = all_released"
  by (rule ext, case_tac x)
    (simp_all add: held_now_def all_released_def AArenaCharacter_def emit_def key_held_def
      TMap_at_def InputReleaseTime_def)

lemma some_key_held_iff:
  assumes "constructed_keys s"
  shows "some_key_held s \<longleftrightarrow> list_ex (held_now s) [North, East, South, West]"
proof -
  from assms obtain a b c e where
    m: "MoveInputMap s = [(North, a), (East, b), (South, c), (West, e)]"
    using keys_NESW by (auto simp: constructed_keys_def)
  show ?thesis
    by (auto simp: some_key_held_def held_now_def key_held_def TMap_at_def m)
qed

text \<open>
  C3. Every non-empty sequence of \<open>UpdateMovementInput\<close> calls on a constructed character
  runs to the end, leaves the map with its four keys, and leaves \<open>bIsMoving\<close> true exactly
  when some entry of the map is more recent than \<open>InputReleaseTime\<close>. When the times passed
  are clock readings, that is exactly when some direction key is down after the sequence of
  presses and releases.
\<close>

theorem moving_iff_key_held:
  assumes "calls \<noteq> []"
  shows "\<exists>s'. UpdateMovementInputs calls (AArenaCharacter s0) = Some s'
           \<and> map fst (MoveInputMap s') = [North, East, South, West]
           \<and> (bIsMoving s' \<longleftrightarrow>
                list_ex (\<lambda>t. t > InputReleaseTime) (map snd (MoveInputMap s')))
           \<and> (list_all (\<lambda>c. clock_reading (fst c)) calls \<longrightarrow>
                (bIsMoving s' \<longleftrightarrow>
                   list_ex (keys_after calls all_released) [North, East, South, West]))"
proof -
  from UpdateMovementInputs_inv [OF constructed_keys_AArenaCharacter, of calls s0]
  obtain s' where run: "UpdateMovementInputs calls (AArenaCharacter s0) = Some s'"
    and k: "constructed_keys s'"
    and m: "bIsMoving s' \<longleftrightarrow> some_key_held s'"
    and h: "list_all (\<lambda>c. clock_reading (fst c)) calls \<longrightarrow>
              held_now s' = keys_after calls all_released"
    using assms by (auto simp: held_now_AArenaCharacter)
  have keys: "map fst (MoveInputMap s') = [North, East, South, West]"
    using k by (simp add: constructed_keys_def)
  have entries: "bIsMoving s' \<longleftrightarrow>
      list_ex (\<lambda>t. t > InputReleaseTime) (map snd (MoveInputMap s'))"
    using m by (simp add: some_key_held_def)
  have "list_all (\<lambda>c. clock_reading (fst c)) calls \<longrightarrow>
          (bIsMoving s' \<longleftrightarrow> list_ex (keys_after calls all_released) [North, East, South, West])"
    using m h some_key_held_iff [OF k] by auto
  with run keys entries show ?thesis by (intro exI [of _ s'] conjI)
qed

text \<open>After the whole of \<open>sample_calls\<close> no key is down; before the last release East is.\<close>

theorem moving_iff_key_held_witness:
  "sample_calls \<noteq> []
   \<and> (\<exists>s'. UpdateMovementInputs sample_calls (AArenaCharacter sample_members) = Some s'
         \<and> \<not> bIsMoving s')
   \<and> (\<exists>s'. UpdateMovementInputs (butlast sample_calls) (AArenaCharacter sample_members) = Some s'
         \<and> bIsMoving s')"
  using moving_iff_key_held [of sample_calls sample_members]
    moving_iff_key_held [of "butlast sample_calls" sample_members]
  by (auto simp: sample_calls_def clock_reading_def all_released_def)

subsection \<open>Tick\<close>

text \<open>
  C5. Write \<open>s\<close> for the character once \<open>Super::Tick\<close> has run, and \<open>p\<close>, \<open>q\<close> for it once the
  Idle, respectively Walking, case has updated the facing, run its event and played its
  animation: the flags are read there. In the Idle case the result is \<open>p\<close> with the state
  set to Walking if \<open>bIsMoving\<close>, else to Attacking if \<open>bIsAttacking\<close>, else to Ability if
  \<open>bIsAbility\<close>, else \<open>p\<close> itself. In the Walking case it is \<open>q\<close> with the state set to
  Attacking if \<open>bIsAttacking\<close>, else to Ability if \<open>bIsAbility\<close>, else to Idle (velocity
  zeroed) if not \<open>bIsMoving\<close>, else \<open>q\<close> itself. The Attacking and Ability cases likewise write
  the state once or not at all. So \<open>Tick\<close> itself assigns \<open>CharacterState\<close> at most once, the
  value picked by the first check that holds.
\<close>

theorem Tick_transition_order:
  fixes bp now dt s0
  defines "s \<equiv> call (CallSuperTick dt) (SuperTick bp dt) s0"
  defines "p \<equiv> before_checks CallIdleState (IdleState bp) IdleAnimations s"
  defines "q \<equiv> before_checks CallWalkingState (WalkingState bp) WalkingAnimations s"
  shows
  "(CharacterState s = Idle \<longrightarrow>
      (bIsMoving p \<longrightarrow> Tick bp now dt s0 = p\<lparr>CharacterState := Walking\<rparr>)
    \<and> (\<not> bIsMoving p \<and> bIsAttacking p \<longrightarrow> Tick bp now dt s0 = p\<lparr>CharacterState := Attacking\<rparr>)
    \<and> (\<not> bIsMoving p \<and> \<not> bIsAttacking p \<and> bIsAbility p \<longrightarrow>
          Tick bp now dt s0 = p\<lparr>CharacterState := Ability\<rparr>)
    \<and> (\<not> bIsMoving p \<and> \<not> bIsAttacking p \<and> \<not> bIsAbility p \<longrightarrow> Tick bp now dt s0 = p))
 \<and> (CharacterState s = Walking \<longrightarrow>
      (bIsAttacking q \<longrightarrow> Tick bp now dt s0 = q\<lparr>CharacterState := Attacking\<rparr>)
    \<and> (\<not> bIsAttacking q \<and> bIsAbility q \<longrightarrow> Tick bp now dt s0 = q\<lparr>CharacterState := Ability\<rparr>)
    \<and> (\<not> bIsAttacking q \<and> \<not> bIsAbility q \<and> \<not> bIsMoving q \<longrightarrow>
          Tick bp now dt s0 = (SetVelocity 0 (Facing q) q)\<lparr>CharacterState := Idle\<rparr>)
    \<and> (\<not> bIsAttacking q \<and> \<not> bIsAbility q \<and> bIsMoving q \<longrightarrow> Tick bp now dt s0 = q))
 \<and> (CharacterState s = Attacking \<longrightarrow>
      (\<not> bIsAttacking s \<and> bIsMoving s \<longrightarrow> Tick bp now dt s0 = s\<lparr>CharacterState := Walking\<rparr>)
    \<and> (\<not> bIsAttacking s \<and> \<not> bIsMoving s \<longrightarrow> Tick bp now dt s0 = s\<lparr>CharacterState := Idle\<rparr>)
    \<and> (bIsAttacking s \<and> attackStarted s \<longrightarrow> Tick bp now dt s0 = s)
    \<and> (bIsAttacking s \<and> \<not> attackStarted s \<longrightarrow>
          Tick bp now dt s0 =
            call (CallAttackState (real_of_int (now - attackDownTime s) / 10000) (attackKeyDown s))
              (AttackState bp (real_of_int (now - attackDownTime s) / 10000) (attackKeyDown s)) s))
 \<and> (CharacterState s = Ability \<longrightarrow>
      (\<not> bIsAbility s \<and> bIsMoving s \<longrightarrow>
          Tick bp now dt s0 = (call CallAbilityEnd (AbilityEnd bp) s)\<lparr>CharacterState := Walking\<rparr>)
    \<and> (\<not> bIsAbility s \<and> \<not> bIsMoving s \<longrightarrow>
          Tick bp now dt s0 = (call CallAbilityEnd (AbilityEnd bp) s)\<lparr>CharacterState := Idle\<rparr>)
    \<and> (bIsAbility s \<longrightarrow>
          Tick bp now dt s0 =
            call (CallAbilityState (real_of_int (now - abilityDownTime s) / 10000) (abilityKeyDown s))
              (AbilityState bp (real_of_int (now - abilityDownTime s) / 10000) (abilityKeyDown s)) s))"
  unfolding s_def p_def q_def
  by (simp add: Tick_def Let_def GetTotalMilliseconds_def)

text \<open>
  With North held and an attack requested, Idle goes to Walking, not to Attacking; Walking
  goes to Attacking.
\<close>

theorem Tick_transition_order_witness:
  "CharacterState north_and_attack = Idle
   \<and> bIsMoving north_and_attack \<and> bIsAttacking north_and_attack
   \<and> CharacterState (Tick no_blueprint 7 (1 / 60) north_and_attack) = Walking
   \<and> CharacterState
        (Tick no_blueprint 8 (1 / 60) (Tick no_blueprint 7 (1 / 60) north_and_attack))
       = Attacking"
  using Tick_transition_order [of "1 / 60" no_blueprint north_and_attack 7]
    Tick_transition_order
      [of "1 / 60" no_blueprint "Tick no_blueprint 7 (1 / 60) north_and_attack" 8]
  by (simp add: north_and_attack_def no_blueprint_def UpdateAttackInput_def call_def emit_def
      before_checks_def UpdateFacing_def more_recent_def PlayFlipbook_for_Facing_def TMap_Contains_def
      sample_character_simp sample_members_def)

text \<open>
  C6. When \<open>Tick\<close> runs the Walking case and, at the checks (after \<open>Super::Tick\<close> and the
  walking event), \<open>bIsAttacking\<close>, \<open>bIsAbility\<close> and \<open>bIsMoving\<close> are all false, the velocity
  is zero and the state is Idle afterwards.
\<close>

theorem Tick_walking_to_idle:
  fixes bp now dt s0
  defines "s \<equiv> call (CallSuperTick dt) (SuperTick bp dt) s0"
  defines "q \<equiv> before_checks CallWalkingState (WalkingState bp) WalkingAnimations s"
  assumes "CharacterState s = Walking" and "\<not> bIsAttacking q" and "\<not> bIsAbility q"
    and "\<not> bIsMoving q"
  shows "Velocity (Tick bp now dt s0) = (0, 0, 0) \<and> CharacterState (Tick bp now dt s0) = Idle"
  using assms unfolding s_def q_def
  by (cases "Facing (before_checks CallWalkingState (WalkingState bp) WalkingAnimations
        (call (CallSuperTick dt) (SuperTick bp dt) s0))")
     (simp_all add: Tick_def Let_def)

text \<open>The walking event sets the velocity to 300 northwards; the transition zeroes it.\<close>

theorem Tick_walking_to_idle_witness:
  "CharacterState walking_released = Walking
   \<and> \<not> bIsAttacking walking_released \<and> \<not> bIsAbility walking_released
   \<and> \<not> bIsMoving walking_released
   \<and> Velocity (call CallWalkingState (WalkingState moving_blueprint) walking_released)
       = (0, 0, 300)
   \<and> Velocity (Tick moving_blueprint 8 (1 / 60) walking_released) = (0, 0, 0)
   \<and> CharacterState (Tick moving_blueprint 8 (1 / 60) walking_released) = Idle"
  using Tick_walking_to_idle [of "1 / 60" moving_blueprint walking_released 8]
  by (simp add: walking_released_def moving_blueprint_def no_blueprint_def call_def emit_def
      before_checks_def UpdateFacing_def PlayFlipbook_for_Facing_def TMap_Contains_def Move_def
      sample_character_simp sample_members_def)

subsection \<open>The life of an attack\<close>

lemma attack_members_emit [simp]: "attack_members (emit e s) = attack_members s"
  by (simp add: attack_members_def emit_def)

lemma attack_members_call: "keeps_attack f \<Longrightarrow> attack_members (call e f s) = attack_members s"
  by (simp add: keeps_attack_def call_def)

lemma attack_members_SetVelocity [simp]:
  "attack_members (SetVelocity speed d s) = attack_members s"
  by (cases d) (simp_all add: attack_members_def)

lemma attack_members_UpdateFacing [simp]: "attack_members (UpdateFacing s) = attack_members s"
  by (simp add: UpdateFacing_def Let_def attack_members_def)

lemma attack_members_PlayFlipbook [simp]:
  "attack_members (PlayFlipbook_for_Facing anims s) = attack_members s"
  by (simp add: PlayFlipbook_for_Facing_def split: option.split)

lemma attack_members_before_checks:
  "keeps_attack f \<Longrightarrow> attack_members (before_checks e f anims s) = attack_members s"
  by (simp add: before_checks_def Let_def attack_members_call)

lemma attack_members_CharacterState [simp]:
  "attack_members (s\<lparr>CharacterState := c\<rparr>) = attack_members s"
  by (simp add: attack_members_def)

lemma attack_members_Tick:
  assumes "blueprint_keeps_attack bp"
  shows "attack_members (Tick bp now dt s) = attack_members s"
proof -
  let ?s = "call (CallSuperTick dt) (SuperTick bp dt) s"
  have s: "attack_members ?s = attack_members s"
    using assms by (simp add: blueprint_keeps_attack_def attack_members_call)
  have "attack_members (Tick bp now dt s) = attack_members ?s"
    using assms
    by (cases "CharacterState ?s")
      (simp_all add: Tick_def Let_def blueprint_keeps_attack_def attack_members_call
        attack_members_before_checks)
  with s show ?thesis by simp
qed

lemma attack_members_UpdateMovementInput:
  "UpdateMovementInput now d k s = Some s' \<Longrightarrow> attack_members s' = attack_members s"
  by (auto simp: UpdateMovementInput_def attack_members_def split: option.splits)

lemma attack_members_UpdateAbilityInput:
  "keeps_attack (AbilityStart bp) \<Longrightarrow>
     attack_members (UpdateAbilityInput bp now now1 now2 active s) = attack_members s"
  using attack_members_call [of "AbilityStart bp" CallAbilityStart "s\<lparr>abilityKeyDown := active\<rparr>"]
  by (auto simp: UpdateAbilityInput_def Let_def attack_members_def)

lemma attack_members_UpdateAttackInput_release:
  "attack_members (UpdateAttackInput now False s) = attack_members s"
  by (simp add: UpdateAttackInput_def Let_def attack_members_def)

lemma attack_members_ResetInput:
  assumes "keeps_attack (AbilityStart bp)"
    and "ResetInput bp controller nowN nowW nowS nowE nowA s = Some s'"
  shows "attack_members s' = attack_members s"
  using assms
  by (auto simp: ResetInput_def and_then_def attack_members_UpdateAttackInput_release
      attack_members_UpdateAbilityInput
      split: option.splits dest!: attack_members_UpdateMovementInput)


lemma attack_members_BeginAttack:
  "BeginAttack d s = Some s' \<Longrightarrow>
     bIsAttacking s' = bIsAttacking s \<and> attackDownTime s' = attackDownTime s \<and> attackStarted s'"
  by (cases "TMap_at (AttackBoxes s) (Facing s)"; cases "the (TMap_at (AttackBoxes s) (Facing s))")
    (auto simp: BeginAttack_def emit_def)

lemma attack_members_Attack:
  "Attack this other n s = Some s' \<Longrightarrow> attack_members s' = attack_members s"
  by (cases other) (auto simp: Attack_def split: if_splits)

lemma attack_members_SetHitbox:
  "SetHitbox d hitbox s = Some s' \<Longrightarrow> attack_members s' = attack_members s"
  by (cases hitbox) (auto simp: SetHitbox_def attack_members_def emit_def)

lemma FinishAttack_registered:
  "TMap_at (AttackBoxes s) (Facing s) = Some (Obj b) \<Longrightarrow>
     FinishAttack s =
       Some (s\<lparr>bIsAttacking := False, attackDownTime := - 1, attackStarted := False,
               effects := effects s @ [CallSetCollisionEnabled b NoCollision]\<rparr>)"
  by (simp add: FinishAttack_def emit_def)

lemma invoke_keeps_running_attack:
  assumes bp: "blueprint_keeps_attack bp" and other: "f \<noteq> InvFinishAttack"
    and run: "invoke bp f s = Some s'"
  shows "(bIsAttacking s \<longrightarrow> bIsAttacking s' \<and> attackDownTime s' = attackDownTime s)
       \<and> (attackStarted s \<longrightarrow> attackStarted s')"
proof -
  have start: "keeps_attack (AbilityStart bp)"
    using bp by (simp add: blueprint_keeps_attack_def)
  have same: "attack_members s' = attack_members s \<Longrightarrow> ?thesis"
    by (simp add: attack_members_def)
  show ?thesis
  proof (cases f)
    case InvMove
    with run show ?thesis by (intro same) (auto simp: Move_def)
  next
    case (InvSetVelocity speed d)
    with run show ?thesis by (intro same) auto
  next
    case (InvBeginAttack d)
    with run show ?thesis using attack_members_BeginAttack [of d s s'] by simp
  next
    case InvFinishAttack
    with other show ?thesis by simp
  next
    case InvFinishAbility
    with run show ?thesis by (intro same) (auto simp: FinishAbility_def attack_members_def)
  next
    case (InvAttack this other n)
    with run show ?thesis by (intro same) (simp add: attack_members_Attack)
  next
    case (InvResetInput controller nowN nowW nowS nowE nowA)
    with run show ?thesis by (intro same) (simp add: attack_members_ResetInput [OF start])
  next
    case InvResetCooldown
    with run show ?thesis by (intro same) (auto simp: ResetCooldown_def attack_members_def)
  next
    case (InvUpdateMovementInput now d k)
    with run show ?thesis by (intro same) (simp add: attack_members_UpdateMovementInput)
  next
    case InvUpdateFacing
    with run show ?thesis by (intro same) auto
  next
    case (InvUpdateAttackInput now active)
    with run have s': "s' = UpdateAttackInput now active s" by simp
    show ?thesis unfolding s' by (simp add: UpdateAttackInput_def Let_def)
  next
    case (InvUpdateAbilityInput now now1 now2 active)
    with run show ?thesis
      by (intro same) (auto simp: attack_members_UpdateAbilityInput [OF start])
  next
    case (InvSetHitbox d hitbox)
    with run show ?thesis by (intro same) (simp add: attack_members_SetHitbox)
  next
    case (InvTick now dt)
    with run show ?thesis by (intro same) (auto simp: attack_members_Tick [OF bp])
  qed
qed

text \<open>
  C10. Releasing the attack key changes neither \<open>bIsAttacking\<close> nor \<open>attackDownTime\<close>.
  \<open>FinishAttack\<close>, whenever it returns, has cleared \<open>bIsAttacking\<close> and \<open>attackStarted\<close> and set
  \<open>attackDownTime\<close> to -1, and it returns when a hitbox is registered for the facing. No
  other member function does any of this: with Blueprint events that do not write these
  members themselves, every other invocation leaves a running attack running, its press time
  as it was, and an opened hitbox flag set.
\<close>

theorem attack_runs_until_FinishAttack:
  "bIsAttacking (UpdateAttackInput now False s) = bIsAttacking s
   \<and> attackDownTime (UpdateAttackInput now False s) = attackDownTime s
   \<and> (\<forall>s'. FinishAttack s = Some s' \<longrightarrow>
         \<not> bIsAttacking s' \<and> attackDownTime s' = - 1 \<and> \<not> attackStarted s')
   \<and> (TMap_at (AttackBoxes s) (Facing s) = Some (Obj b) \<longrightarrow> FinishAttack s \<noteq> None)
   \<and> (blueprint_keeps_attack bp \<and> f \<noteq> InvFinishAttack \<and> invoke bp f s = Some s'' \<longrightarrow>
         (bIsAttacking s \<longrightarrow> bIsAttacking s'' \<and> attackDownTime s'' = attackDownTime s)
         \<and> (attackStarted s \<longrightarrow> attackStarted s''))"
proof -
  have release: "bIsAttacking (UpdateAttackInput now False s) = bIsAttacking s
      \<and> attackDownTime (UpdateAttackInput now False s) = attackDownTime s"
    by (simp add: UpdateAttackInput_def Let_def)
  have finish: "\<not> bIsAttacking s' \<and> attackDownTime s' = - 1 \<and> \<not> attackStarted s'"
    if "FinishAttack s = Some s'" for s'
  proof (cases "TMap_at (AttackBoxes s) (Facing s)")
    case None
    with that show ?thesis by (simp add: FinishAttack_def)
  next
    case (Some box)
    with that show ?thesis by (cases box) (auto simp: FinishAttack_def emit_def)
  qed
  have returns: "TMap_at (AttackBoxes s) (Facing s) = Some (Obj b) \<longrightarrow> FinishAttack s \<noteq> None"
    by (simp add: FinishAttack_registered)
  from release finish returns invoke_keeps_running_attack [of bp f s s''] show ?thesis
    by blast
qed

text \<open>
  A tick and a key release leave the running attack of tick 5 as it is; \<open>FinishAttack\<close> ends
  it.
\<close>

theorem attack_runs_until_FinishAttack_witness:
  "blueprint_keeps_attack no_blueprint
   \<and> TMap_at (AttackBoxes attack_running) (Facing attack_running) = Some (Obj 7)
   \<and> bIsAttacking attack_running \<and> attackStarted attack_running
   \<and> attackDownTime attack_running = 5
   \<and> bIsAttacking (UpdateAttackInput 6 False attack_running)
   \<and> bIsAttacking (Tick no_blueprint 6 (1 / 60) attack_running)
   \<and> attackDownTime (Tick no_blueprint 6 (1 / 60) attack_running) = 5
   \<and> attackStarted (Tick no_blueprint 6 (1 / 60) attack_running)
   \<and> FinishAttack attack_running =
       Some (attack_running\<lparr>bIsAttacking := False, attackDownTime := - 1,
               attackStarted := False,
               effects := [CallAddDynamic, CallSetCollisionEnabled 7 NoCollision]\<rparr>)"
  using attack_runs_until_FinishAttack
      [of 6 attack_running 7 no_blueprint "InvTick 6 (1 / 60)"
        "Tick no_blueprint 6 (1 / 60) attack_running"]
  by (simp add: attack_running_def UpdateAttackInput_def FinishAttack_def TMap_at_def emit_def
      blueprint_keeps_attack_def keeps_attack_def no_blueprint_def
      sample_character_simp sample_members_def)

end
